theory Spec2Isabelle
  imports Complex_Main
begin

section \<open>Numbers\<close>

text \<open>
  A JavaScript number is an IEEE 754 double. Times, energies and frequencies are modelled
  as reals and every arithmetic operation of the source on them is followed by
  \<open>toDouble\<close>, the rounding to the nearest double with ties going to the even
  significand, as the standard prescribes for \<open>+\<close>, \<open>-\<close>, \<open>*\<close> and \<open>/\<close>; a decimal
  literal such as \<open>0.1\<close> is the double nearest to it. Grid positions and MIDI pitches
  are integers far below \<open>2^53\<close>, on which the operations are exact. \<open>NaN\<close>, the
  infinities, overflow and subnormal numbers are outside the model, so the theorems about
  positions assume a positive tempo, grid division and bar count. The clock, energy,
  frequency and clarity of a frame are doubles; where a concrete frame below is given a
  time that is no double, the session starts at time 0 and the loop's first operation on
  that time rounds it to the double nearest to it.
\<close>

definition roundEven :: "real \<Rightarrow> int" where
  \<comment> \<open>The nearest integer, a tie going to the even one.\<close>
  "roundEven y =
     (let n = \<lfloor>y\<rfloor>; r = y - real_of_int n
      in if r < 1 / 2 then n else if r > 1 / 2 then n + 1 else if even n then n else n + 1)"

definition toDouble :: "real \<Rightarrow> real" where
  \<comment> \<open>The nearest number with a significand of 53 bits.\<close>
  "toDouble x =
     (if x = 0 then 0
      else (let e = \<lfloor>log 2 \<bar>x\<bar>\<rfloor> - 52
            in real_of_int (roundEven (x / 2 powr real_of_int e)) * 2 powr real_of_int e))"

definition mathLog2 :: "real \<Rightarrow> real" where
  \<comment> \<open>\<open>Math.log2\<close>, taken as correctly rounded.\<close>
  "mathLog2 x = toDouble (log 2 x)"

definition jsRound :: "real \<Rightarrow> int" where
  \<comment> \<open>\<open>Math.round\<close>: the nearest integer, a tie going up; exact on a double.\<close>
  "jsRound x = \<lfloor>x + 1 / 2\<rfloor>"

definition jsRem :: "int \<Rightarrow> int \<Rightarrow> int" where
  \<comment> \<open>\<open>a % b\<close> on integers with \<open>b \<noteq> 0\<close>: the remainder takes the sign of \<open>a\<close>.\<close>
  "jsRem a b = sgn a * (\<bar>a\<bar> mod \<bar>b\<bar>)"

definition BEATS_PER_BAR :: int where
  "BEATS_PER_BAR = 4"

definition SUBDIVISIONS :: int where
  "SUBDIVISIONS = 8"

definition VOLUME_THRESHOLD :: real where
  "VOLUME_THRESHOLD = toDouble (1 / 10)"

definition SILENCE_THRESHOLD :: real where
  "SILENCE_THRESHOLD = toDouble (2 / 10)"

section \<open>Data model\<close>

record Note =
  pitch :: int
  startPosition :: int
  endPosition :: int
  startTime :: real
  endTime :: real

text \<open>
  \<open>currentNoteState\<close> is either the all-\<open>null\<close> inactive object (\<open>None\<close>) or an active
  object with every field set (\<open>Some\<close>); the source builds no other value.
\<close>

record activeNote =
  activePitch :: real
  activeStartTime :: real
  activeStartPosition :: int
  lastUpdateTime :: real

text \<open>The note format handed to and returned by \<open>MagentaManager.generateResponse\<close>.\<close>

record magentaNote =
  mPitch :: int
  mStartTime :: real
  mEndTime :: real
  mVelocity :: int

text \<open>A generated note after the frame loop has mapped it onto the grid.\<close>

record aiNote =
  aiPitch :: int
  aiStartPosition :: int
  aiEndPosition :: int
  aiStartTime :: real
  aiEndTime :: real
  aiVelocity :: int

text \<open>
  \<open>loop\<close> is created once, inside \<open>listen\<close>, and re-schedules itself. The \<open>const\<close>
  bindings of the component function that it reads (\<open>bpm\<close>, \<open>gridDivision\<close>,
  \<open>numberOfBars\<close>, \<open>maxNoteDuration\<close>, \<open>isWaitingForMagenta\<close>, \<open>currentNoteState\<close>)
  are those of the render in which \<open>listen\<close> was called: a later \<open>setState\<close> creates
  new bindings in a later render and does not change what the running loop reads.
  They are the fields of \<open>closure\<close>. What the loop reads through a ref
  (\<open>userNotesRef\<close>, \<open>previousNotesRef\<close>, \<open>modeRef\<close>), through a \<open>let\<close> of \<open>listen\<close>
  or through a functional state update is mutable and lives in \<open>state\<close>.
\<close>

record closure =
  bpm :: int
  gridDivision :: int
  numberOfBars :: int
  maxNoteDuration :: int
  isWaitingForMagenta :: bool
  currentNoteState :: "activeNote option"

datatype logLine =
  LoopEndDetected
  | BufferChanged
  | ConvertedNotes "magentaNote list"
  | ManagerFound
  | ManagerNotFound
  | NoBufferChanges
  | CreatedNote Note
  | NoActiveNote
  | GotResponse
  | ErrorGenerating

record state =
  userNotes :: "Note list"
  userNotesRef :: "Note list"
  previousNotesRef :: "Note list"
  isAddMode :: bool
  hasManager :: bool
  silenceStartTime :: "real option"
  lastLoopEndPosition :: int
  loopStartTime :: "real option"
  waitingLatest :: bool
  noteStateLatest :: "activeNote option"
  inFlight :: nat
  aiNotes :: "aiNote list"
  console :: "logLine list"

text \<open>One animation frame: what the analyser, the pitch detector and the clock return.\<close>

record frame =
  currentEnergy :: real
  detectedPitch :: real
  clarity :: real
  currentTime :: real

section \<open>Grid clock\<close>

definition totalPositions :: "closure \<Rightarrow> int" where
  "totalPositions cl = numberOfBars cl * BEATS_PER_BAR * gridDivision cl"

definition secondsPerSubdivision :: "closure \<Rightarrow> real" where
  \<comment> \<open>\<open>60 / bpm / gridDivision\<close>, which is also \<open>secondsPerBeat / gridDivision\<close>.\<close>
  "secondsPerSubdivision cl =
     toDouble (toDouble (60 / real_of_int (bpm cl)) / real_of_int (gridDivision cl))"

definition wrap :: "closure \<Rightarrow> int \<Rightarrow> int" where
  \<comment> \<open>The source has no function of this name: it writes \<open>% (numberOfBars * BEATS_PER_BAR * gridDivision)\<close> inline.\<close>
  "wrap cl position = jsRem position (numberOfBars cl * BEATS_PER_BAR * gridDivision cl)"

definition calculatePosition :: "closure \<Rightarrow> real \<Rightarrow> int" where
  "calculatePosition cl time =
     (let secondsPerBeat = toDouble (60 / real_of_int (bpm cl));
          secondsPerSub = toDouble (secondsPerBeat / real_of_int (gridDivision cl));
          position = jsRound (toDouble (time / secondsPerSub))
      in jsRem position (numberOfBars cl * BEATS_PER_BAR * gridDivision cl))"

definition frequencyToMidi :: "real \<Rightarrow> int" where
  \<comment> \<open>\<open>Math.round(69 + 12 * Math.log2(f / 440))\<close>\<close>
  "frequencyToMidi f = jsRound (toDouble (69 + toDouble (12 * mathLog2 (toDouble (f / 440)))))"

section \<open>Committed note store\<close>

definition commitNote :: "bool \<Rightarrow> Note list \<Rightarrow> Note \<Rightarrow> Note list" where
  \<comment> \<open>The updater passed to \<open>setUserNotes\<close>, in \<open>handleNoteEnd\<close> and in \<open>loop\<close>.\<close>
  "commitNote addMode prev n =
     (if addMode
      then (if list_ex (\<lambda>m. startPosition m = startPosition n \<and> pitch m = pitch n) prev
            then prev else prev @ [n])
      else filter (\<lambda>m. startPosition m \<noteq> startPosition n) prev @ [n])"

section \<open>Note combiner\<close>

fun combineStep :: "Note list \<times> Note option \<Rightarrow> Note \<Rightarrow> Note list \<times> Note option" where
  \<comment> \<open>The body of the \<open>forEach\<close>: the pair is \<open>(combinedNotes, currentNote)\<close>.\<close>
  "combineStep (combined, None) n = (combined, Some n)"
| "combineStep (combined, Some c) n =
     (if pitch n = pitch c
      then (combined, Some (c\<lparr>endTime := endTime n, endPosition := endPosition n\<rparr>))
      else (combined @ [c], Some n))"

definition combineNotes :: "Note list \<Rightarrow> Note list" where
  "combineNotes ns =
     (case foldl combineStep ([], None) ns of
        (combined, None) \<Rightarrow> combined
      | (combined, Some c) \<Rightarrow> combined @ [c])"

definition toMagenta :: "Note \<Rightarrow> magentaNote" where
  \<comment> \<open>Committed notes carry no \<open>velocity\<close> field, so \<open>note.velocity || 100\<close> is 100.\<close>
  "toMagenta n = \<lparr>mPitch = max 0 (min 127 (pitch n)), mStartTime = startTime n,
                  mEndTime = endTime n, mVelocity = 100\<rparr>"

section \<open>Note segmenter\<close>

definition handleNoteEnd :: "closure \<Rightarrow> state \<Rightarrow> real \<Rightarrow> state" where
  "handleNoteEnd cl s time =
     (case currentNoteState cl of
        Some a \<Rightarrow>
          (let endPos = calculatePosition cl time;
               n = \<lparr>pitch = frequencyToMidi (activePitch a),
                    startPosition = activeStartPosition a,
                    endPosition = endPos,
                    startTime = activeStartTime a,
                    endTime = time\<rparr>
           in s\<lparr>userNotes := commitNote (isAddMode s) (userNotes s) n,
                noteStateLatest := None,
                console := console s @ [CreatedNote n]\<rparr>)
      | None \<Rightarrow> s\<lparr>console := console s @ [NoActiveNote]\<rparr>)"

definition handleNoteStart :: "closure \<Rightarrow> state \<Rightarrow> real \<Rightarrow> real \<Rightarrow> state" where
  "handleNoteStart cl s p time =
     (let position = calculatePosition cl time;
          fresh = \<lparr>activePitch = p, activeStartTime = time,
                    activeStartPosition = position, lastUpdateTime = time\<rparr>
      in case currentNoteState cl of
           None \<Rightarrow> s\<lparr>noteStateLatest := Some fresh\<rparr>
         | Some a \<Rightarrow>
             (let currentMidiNote = frequencyToMidi (activePitch a);
                  newMidiNote = frequencyToMidi p;
                  pitchDifference = \<bar>newMidiNote - currentMidiNote\<bar>
              in if pitchDifference \<ge> 1
                 then (handleNoteEnd cl s time)\<lparr>noteStateLatest := Some fresh\<rparr>
                 else (let currentDuration = toDouble (time - activeStartTime a);
                           secondsPerBeat = toDouble (60 / real_of_int (bpm cl));
                           maxDurationInSeconds =
                             toDouble (toDouble (real_of_int (maxNoteDuration cl)
                                                   / real_of_int (gridDivision cl))
                                         * secondsPerBeat)
                       in if currentDuration \<ge> maxDurationInSeconds
                          then (handleNoteEnd cl s time)\<lparr>noteStateLatest := Some fresh\<rparr>
                          else s)))"

section \<open>Generation: the external model manager\<close>

datatype error = NotInitialized | ModelError

record stepNote =
  sPitch :: int
  quantizedStartStep :: int
  quantizedEndStep :: int
  sVelocity :: "int option"

definition validNoteRangeMin :: int where
  "validNoteRangeMin = 48"

definition validNoteRangeMax :: int where
  "validNoteRangeMax = 83"

definition isValid :: "magentaNote \<Rightarrow> bool" where
  "isValid n = (mPitch n \<ge> validNoteRangeMin \<and> mPitch n \<le> validNoteRangeMax)"

definition secondsPerStep :: real where
  \<comment> \<open>\<open>60 / (120 * 4)\<close>: 120 BPM, 4 steps per quarter note\<close>
  "secondsPerStep = toDouble (60 / (120 * 4))"

definition fromStep :: "stepNote \<Rightarrow> magentaNote" where
  \<comment> \<open>\<open>note.velocity || 100\<close>: a missing or zero velocity becomes 100.\<close>
  "fromStep n = \<lparr>mPitch = sPitch n,
                 mStartTime = toDouble (real_of_int (quantizedStartStep n) * secondsPerStep),
                 mEndTime = toDouble (real_of_int (quantizedEndStep n) * secondsPerStep),
                 mVelocity = (case sVelocity n of None \<Rightarrow> 100
                              | Some v \<Rightarrow> if v = 0 then 100 else v)\<rparr>"

text \<open>
  The external model (\<open>quantizeNoteSequence\<close> followed by \<open>continueSequence\<close>) is a
  parameter: given the notes of the sequence it fails or returns the notes of its
  continuation. The result of \<open>generateResponse\<close> is paired with the list of the calls
  made to the model, so that "the model was not invoked" can be stated.
\<close>

definition generateResponse ::
  "bool \<Rightarrow> (magentaNote list \<Rightarrow> error + stepNote list) \<Rightarrow> magentaNote list
     \<Rightarrow> (error + magentaNote list) \<times> magentaNote list list" where
  "generateResponse isInitialized model notes =
     (if \<not> isInitialized then (Inl NotInitialized, [])
      else (let validNotes = filter isValid notes
            in if length validNotes = 0 then (Inr [], [])
               else (let magentaNotes = map (\<lambda>n. \<lparr>mPitch = mPitch n, mStartTime = mStartTime n,
                                                   mEndTime = mEndTime n, mVelocity = 100\<rparr>) validNotes
                     in case model magentaNotes of
                          Inl e \<Rightarrow> (Inl e, [magentaNotes])
                        | Inr response \<Rightarrow> (Inr (map fromStep response), [magentaNotes]))))"

section \<open>Generation: dispatch at the loop boundary and the response handler\<close>

definition convertResponseNote :: "closure \<Rightarrow> magentaNote \<Rightarrow> aiNote" where
  "convertResponseNote cl n =
     (let secondsPerBeat = toDouble (60 / real_of_int (bpm cl));
          secondsPerSub = toDouble (secondsPerBeat / real_of_int SUBDIVISIONS)
      in \<lparr>aiPitch = mPitch n,
          aiStartPosition = \<lfloor>toDouble (mStartTime n / secondsPerSub)\<rfloor>,
          aiEndPosition = \<lceil>toDouble (mEndTime n / secondsPerSub)\<rceil>,
          aiStartTime = mStartTime n,
          aiEndTime = mEndTime n,
          aiVelocity = mVelocity n\<rparr>)"

definition exportTime :: "closure \<Rightarrow> int \<Rightarrow> real" where
  \<comment> \<open>\<open>exportMIDI\<close>: the time in seconds at which a grid position is written to the MIDI
      track, \<open>(position * 60) / (bpm * gridDivision)\<close>, for user and generated notes alike.\<close>
  "exportTime cl position =
     toDouble (real_of_int (position * 60) / real_of_int (bpm cl * gridDivision cl))"

definition settled :: "closure \<Rightarrow> state \<Rightarrow> (error + magentaNote list) \<Rightarrow> state" where
  \<comment> \<open>The \<open>then\<close>, \<open>catch\<close> and \<open>finally\<close> handlers of one pending request.\<close>
  "settled cl s outcome =
     (if inFlight s = 0 then s
      else (let s1 = (case outcome of
                        Inr response \<Rightarrow>
                          (let s0 = s\<lparr>console := console s @ [GotResponse]\<rparr>
                           in if length response > 0
                              then s0\<lparr>aiNotes := map (convertResponseNote cl) response\<rparr>
                              else s0)
                      | Inl e \<Rightarrow> s\<lparr>console := console s @ [ErrorGenerating]\<rparr>)
            in s1\<lparr>waitingLatest := False, inFlight := inFlight s1 - 1\<rparr>))"

definition loopEndDetected :: "closure \<Rightarrow> state \<Rightarrow> int \<Rightarrow> bool" where
  "loopEndDetected cl s normalizedPosition =
     (normalizedPosition = 0 \<and>
      (lastLoopEndPosition s = totalPositions cl - 1 \<or> lastLoopEndPosition s = - 1))"

definition loopEnd :: "closure \<Rightarrow> state \<Rightarrow> state" where
  \<comment> \<open>The body of the loop-end branch.\<close>
  "loopEnd cl s =
     (let s1 = s\<lparr>console := console s @ [LoopEndDetected]\<rparr>;
          hasBufferChanged = (userNotesRef s1 \<noteq> previousNotesRef s1)
      in if hasBufferChanged \<and> \<not> isWaitingForMagenta cl
         then (let combinedNotes = combineNotes (userNotesRef s1);
                   magentaNotes = map toMagenta combinedNotes;
                   s2 = s1\<lparr>console := console s1 @ [BufferChanged, ConvertedNotes magentaNotes],
                           previousNotesRef := userNotesRef s1,
                           waitingLatest := True\<rparr>
               in if hasManager s2
                  then s2\<lparr>console := console s2 @ [ManagerFound], inFlight := inFlight s2 + 1\<rparr>
                  else s2\<lparr>console := console s2 @ [ManagerNotFound], waitingLatest := False\<rparr>)
         else s1\<lparr>console := console s1 @ [NoBufferChanges]\<rparr>)"

section \<open>The frame loop\<close>

definition falsy :: "real option \<Rightarrow> bool" where
  \<comment> \<open>\<open>!silenceStartTime\<close>: \<open>null\<close> and 0 are both falsy.\<close>
  "falsy t = (t = None \<or> t = Some 0)"

definition relativeTimeOf :: "state \<Rightarrow> frame \<Rightarrow> real" where
  "relativeTimeOf s f =
     toDouble (currentTime f - (case loopStartTime s of None \<Rightarrow> currentTime f | Some t \<Rightarrow> t))"

definition currentPositionOf :: "closure \<Rightarrow> state \<Rightarrow> frame \<Rightarrow> int" where
  "currentPositionOf cl s f = \<lfloor>toDouble (relativeTimeOf s f / secondsPerSubdivision cl)\<rfloor>"

definition normalizedPositionOf :: "closure \<Rightarrow> state \<Rightarrow> frame \<Rightarrow> int" where
  "normalizedPositionOf cl s f = jsRem (currentPositionOf cl s f) (totalPositions cl)"

definition detectNote :: "closure \<Rightarrow> state \<Rightarrow> frame \<Rightarrow> int \<Rightarrow> real \<Rightarrow> state" where
  \<comment> \<open>The branch \<open>if (isSoundDetected)\<close> of the note detection.\<close>
  "detectNote cl s f position relativeTime =
     (if detectedPitch f \<noteq> 0 \<and> clarity f > toDouble (7 / 10)
      then (let midiNote = max 0 (min 127 (frequencyToMidi (detectedPitch f)));
                n = \<lparr>pitch = midiNote,
                     startPosition = position,
                     endPosition = position + 1,
                     startTime = relativeTime,
                     endTime = toDouble (relativeTime + secondsPerSubdivision cl)\<rparr>;
                newNotes = commitNote (isAddMode s) (userNotes s) n
            in s\<lparr>userNotes := newNotes, userNotesRef := newNotes\<rparr>)
      else s)"

definition silenceShort :: "closure \<Rightarrow> state \<Rightarrow> frame \<Rightarrow> state" where
  \<comment> \<open>The \<open>else\<close> branch of the note detection: the 100 ms check.\<close>
  "silenceShort cl s f =
     (if currentNoteState cl \<noteq> None
      then (if falsy (silenceStartTime s)
            then s\<lparr>silenceStartTime := Some (currentTime f)\<rparr>
            else if toDouble (currentTime f - the (silenceStartTime s)) > toDouble (1 / 10)
                 then (handleNoteEnd cl s (currentTime f))\<lparr>silenceStartTime := None\<rparr>
                 else s)
      else s)"

definition silenceLong :: "closure \<Rightarrow> state \<Rightarrow> frame \<Rightarrow> state" where
  \<comment> \<open>The \<open>else\<close> branch of the pitch display: the \<open>SILENCE_THRESHOLD\<close> check.\<close>
  "silenceLong cl s f =
     (let s1 = (if currentNoteState cl \<noteq> None \<and> falsy (silenceStartTime s)
                then s\<lparr>silenceStartTime := Some (currentTime f)\<rparr> else s)
      in if \<not> falsy (silenceStartTime s1)
            \<and> toDouble (currentTime f - the (silenceStartTime s1)) > SILENCE_THRESHOLD
         then (handleNoteEnd cl s1 (the (silenceStartTime s1)))\<lparr>silenceStartTime := None\<rparr>
         else s1)"

definition loop :: "closure \<Rightarrow> state \<Rightarrow> frame \<Rightarrow> state" where
  \<comment> \<open>One run of \<open>loop\<close> while \<open>isRunningRef.current\<close> is set. The waveform, level and
      pitch displays and the transport resynchronisation touch nothing that is modelled
      and are left out.\<close>
  "loop cl s f =
     (let isSoundDetected = (currentEnergy f > VOLUME_THRESHOLD);
          relativeTime = relativeTimeOf s f;
          normalizedPosition = normalizedPositionOf cl s f;
          s1 = (if loopStartTime s = None then s\<lparr>loopStartTime := Some (currentTime f)\<rparr> else s);
          s2 = (if loopEndDetected cl s1 normalizedPosition then loopEnd cl s1 else s1);
          s3 = s2\<lparr>lastLoopEndPosition := normalizedPosition\<rparr>;
          s4 = (if isSoundDetected then detectNote cl s3 f normalizedPosition relativeTime
                else silenceShort cl s3 f)
      in if isSoundDetected then s4 else silenceLong cl s4 f)"

datatype event = Frame frame | Settled "error + magentaNote list"

fun step :: "closure \<Rightarrow> state \<Rightarrow> event \<Rightarrow> state" where
  "step cl s (Frame f) = loop cl s f"
| "step cl s (Settled outcome) = settled cl s outcome"

definition run :: "closure \<Rightarrow> state \<Rightarrow> event list \<Rightarrow> state" where
  "run cl s es = foldl (step cl) s es"

definition frames :: "closure \<Rightarrow> state \<Rightarrow> frame list \<Rightarrow> state" where
  "frames cl s fs = foldl (loop cl) s fs"

definition initialState :: state where
  \<comment> \<open>The refs and \<open>let\<close>s as \<open>App\<close> and \<open>listen\<close> initialise them, with the manager attached.\<close>
  "initialState = \<lparr>userNotes = [], userNotesRef = [], previousNotesRef = [],
     isAddMode = True, hasManager = True, silenceStartTime = None,
     lastLoopEndPosition = - 1, loopStartTime = None, waitingLatest = False,
     noteStateLatest = None, inFlight = 0, aiNotes = [], console = []\<rparr>"

definition initialClosure :: "int \<Rightarrow> int \<Rightarrow> int \<Rightarrow> int \<Rightarrow> closure" where
  \<comment> \<open>The bindings of a render in which no generation is awaited and no note is active,
      for a chosen tempo and grid.\<close>
  "initialClosure b g n m = \<lparr>bpm = b, gridDivision = g, numberOfBars = n, maxNoteDuration = m,
     isWaitingForMagenta = False, currentNoteState = None\<rparr>"

section \<open>Auxiliary definitions for the proofs\<close>

definition pushLast :: "Note list \<times> Note option \<Rightarrow> Note list" where
  \<comment> \<open>\<open>if (currentNote) combinedNotes.push(currentNote)\<close>\<close>
  "pushLast st = (case st of (combined, None) \<Rightarrow> combined | (combined, Some c) \<Rightarrow> combined @ [c])"

definition combineInv :: "Note list \<times> Note option \<Rightarrow> bool" where
  "combineInv st = ((snd st = None \<longrightarrow> fst st = []) \<and> distinct_adj (map pitch (pushLast st)))"

section \<open>Observations on a run\<close>

definition loopEnds :: "state \<Rightarrow> nat" where
  \<comment> \<open>The number of \<open>Loop end detected\<close> lines on the console.\<close>
  "loopEnds s = count_list (console s) LoopEndDetected"

definition cellAt :: "closure \<Rightarrow> real \<Rightarrow> frame \<Rightarrow> int" where
  \<comment> \<open>\<open>currentPosition\<close> of a frame when the loop started at \<open>t0\<close>.\<close>
  "cellAt cl t0 f = \<lfloor>toDouble (toDouble (currentTime f - t0) / secondsPerSubdivision cl)\<rfloor>"

fun noSkip :: "closure \<Rightarrow> real \<Rightarrow> int \<Rightarrow> frame list \<Rightarrow> bool" where
  \<comment> \<open>From cell \<open>c\<close> on, every frame is in the cell of the frame before it or in the next one.\<close>
  "noSkip cl t0 c [] = True"
| "noSkip cl t0 c (f # fs) =
     ((cellAt cl t0 f = c \<or> cellAt cl t0 f = c + 1) \<and> noSkip cl t0 (cellAt cl t0 f) fs)"

fun forward :: "closure \<Rightarrow> real \<Rightarrow> int \<Rightarrow> frame list \<Rightarrow> bool" where
  \<comment> \<open>From cell \<open>c\<close> on, no frame is in an earlier cell than the frame before it.\<close>
  "forward cl t0 c [] = True"
| "forward cl t0 c (f # fs) = (c \<le> cellAt cl t0 f \<and> forward cl t0 (cellAt cl t0 f) fs)"

fun finalCell :: "closure \<Rightarrow> real \<Rightarrow> int \<Rightarrow> frame list \<Rightarrow> int" where
  \<comment> \<open>The cell of the last frame (\<open>c\<close> when there is none).\<close>
  "finalCell cl t0 c [] = c"
| "finalCell cl t0 c (f # fs) = finalCell cl t0 (cellAt cl t0 f) fs"

fun isCreated :: "logLine \<Rightarrow> bool" where
  \<comment> \<open>The console lines \<open>Created note:\<close>, written by \<open>handleNoteEnd\<close> when it closes a note.\<close>
  "isCreated (CreatedNote n) = True"
| "isCreated other = False"

definition closes :: "state \<Rightarrow> nat" where
  \<comment> \<open>How many times \<open>handleNoteEnd\<close> has closed a note.\<close>
  "closes s = length (filter isCreated (console s))"







definition startOf :: "state \<Rightarrow> frame \<Rightarrow> real" where
  \<comment> \<open>\<open>startTime\<close> of \<open>listen\<close> once the frame has run.\<close>
  "startOf s f = (case loopStartTime s of None \<Rightarrow> currentTime f | Some t \<Rightarrow> t)"

section \<open>Concrete inputs\<close>

definition n60 :: Note where
  "n60 = \<lparr>pitch = 60, startPosition = 3, endPosition = 4, startTime = 1, endTime = 2\<rparr>"

definition n62 :: Note where
  "n62 = \<lparr>pitch = 62, startPosition = 3, endPosition = 5, startTime = 3, endTime = 4\<rparr>"

definition n64 :: Note where
  "n64 = \<lparr>pitch = 64, startPosition = 7, endPosition = 8, startTime = 5, endTime = 6\<rparr>"

definition low :: magentaNote where
  "low = \<lparr>mPitch = 40, mStartTime = 0, mEndTime = 1, mVelocity = 100\<rparr>"

definition high :: magentaNote where
  "high = \<lparr>mPitch = 90, mStartTime = 1, mEndTime = 2, mVelocity = 100\<rparr>"

definition cfg :: closure where
  \<comment> \<open>The defaults of \<open>App\<close>: 120 BPM, 32nd-note grid, 4 bars, maximum duration 32.\<close>
  "cfg = initialClosure 120 8 4 32"

definition silentAt :: "real \<Rightarrow> frame" where
  "silentAt t = \<lparr>currentEnergy = 0, detectedPitch = 0, clarity = 0, currentTime = t\<rparr>"

definition clFast :: closure where
  \<comment> \<open>200 BPM, 32nd-note grid, 2 bars: 64 cells of 37.5 ms.\<close>
  "clFast = initialClosure 200 8 2 32"

definition cl16 :: closure where
  \<comment> \<open>120 BPM, 8th-note grid, 2 bars: 16 cells of 250 ms.\<close>
  "cl16 = initialClosure 120 2 2 32"

definition clSlow :: closure where
  \<comment> \<open>The bindings of a render of the same session after the tempo was set to 60.\<close>
  "clSlow = cl16\<lparr>bpm := 60\<rparr>"

definition walk :: "frame list" where
  "walk = map (\<lambda>k. silentAt (k / 4)) [1, 2, 3, 4, 5, 6, 7, 8, 9, 10, 11, 12, 13, 14, 15, 16]"

definition soundAt :: "real \<Rightarrow> real \<Rightarrow> frame" where
  \<comment> \<open>A frame above the volume threshold with a detected pitch of clarity 0.9.\<close>
  "soundAt hz t = \<lparr>currentEnergy = 1 / 2, detectedPitch = hz, clarity = 9 / 10, currentTime = t\<rparr>"

definition cfg58 :: closure where
  \<comment> \<open>58 BPM on the default 32nd-note grid.\<close>
  "cfg58 = initialClosure 58 8 4 32"

definition oneStep :: stepNote where
  \<comment> \<open>A note of the model's continuation, from step 1 to step 2.\<close>
  "oneStep = \<lparr>sPitch = 60, quantizedStartStep = 1, quantizedEndStep = 2, sVelocity = None\<rparr>"

definition awaiting :: state where
  \<comment> \<open>A session with one request pending.\<close>
  "awaiting = initialState\<lparr>inFlight := 1, waitingLatest := True\<rparr>"

definition twoLoops :: "event list" where
  \<comment> \<open>Two traversals of 16 cells of 250 ms: a note sung in each, no response in between.\<close>
  "twoLoops = [Frame (silentAt 0), Frame (soundAt 440 1), Frame (silentAt (39 / 10)),
               Frame (silentAt 4), Frame (soundAt 880 5), Frame (silentAt (79 / 10)),
               Frame (silentAt 8)]"








section \<open>Double arithmetic\<close>

lemma toDouble_zero [simp]: "toDouble 0 = 0"
  by (simp add: toDouble_def)

lemma roundEven_nonneg: "0 \<le> y \<Longrightarrow> 0 \<le> roundEven y"
  by (auto simp: roundEven_def Let_def)

lemma toDouble_nonneg: "0 \<le> x \<Longrightarrow> 0 \<le> toDouble x"
proof (cases "x = 0")
  case True
  then show ?thesis by simp
next
  case False
  assume "0 \<le> x"
  then have "0 \<le> roundEven (x / 2 powr real_of_int (\<lfloor>log 2 \<bar>x\<bar>\<rfloor> - 52))"
    by (intro roundEven_nonneg) simp
  then show ?thesis using False by (simp add: toDouble_def Let_def)
qed

lemma floor_log2:
  fixes y :: real
  assumes "2 ^ 52 \<le> y * 2 ^ n" and "y * 2 ^ n < 2 ^ 53"
  shows "\<lfloor>log 2 y\<rfloor> = 52 - int n"
proof -
  have pos: "0 < y"
  proof (rule ccontr)
    assume "\<not> 0 < y"
    then have "y * 2 ^ n \<le> 0" by (simp add: mult_le_0_iff)
    with assms(1) have "(2::real) ^ 52 \<le> 0" by linarith
    then show False by simp
  qed
  have "log 2 (y * 2 ^ n) = log 2 y + real n"
    using pos by (simp add: log_mult log_nat_power)
  moreover have "52 \<le> log 2 (y * 2 ^ n)"
    using assms(1) pos le_log_iff [of 2 "y * 2 ^ n" 52]
    by (simp add: powr_realpow [symmetric] del: powr_realpow)
  moreover have "log 2 (y * 2 ^ n) < 53"
    using assms(2) pos log_less_iff [of 2 "y * 2 ^ n" 53] by simp
  ultimately have "real_of_int (52 - int n) \<le> log 2 y" "log 2 y < real_of_int (52 - int n) + 1"
    by simp_all
  then show ?thesis by (simp add: floor_eq_iff)
qed

text \<open>
  A number whose magnitude, scaled by \<open>2^n\<close>, lies between \<open>2^52\<close> and \<open>2^53\<close> is rounded
  at the scale \<open>2^n\<close>. This evaluates \<open>toDouble\<close> on a numeral.
\<close>

lemma toDouble_small:
  assumes "2 ^ 52 \<le> \<bar>x\<bar> * 2 ^ n" and "\<bar>x\<bar> * 2 ^ n < 2 ^ 53"
  shows "toDouble x = real_of_int (roundEven (x * 2 ^ n)) / 2 ^ n"
proof -
  have nz: "x \<noteq> 0" using assms(1) by auto
  have e: "\<lfloor>log 2 \<bar>x\<bar>\<rfloor> - 52 = - int n"
    using floor_log2 [OF assms] by simp
  have p: "2 powr real_of_int (- int n) = 1 / 2 ^ n"
    by (simp add: powr_minus powr_realpow inverse_eq_divide)
  show ?thesis
    using nz by (simp add: toDouble_def Let_def e p del: of_int_minus)
qed

subsection \<open>The doubles of the concrete inputs\<close>

text \<open>
  The value of \<open>toDouble\<close> on each number that the evaluation of a concrete input below
  meets, proved by \<open>toDouble_small\<close>; the lemmas are grouped by the power of two that
  brings the number into the range of 53-bit integers.
\<close>

lemma double_basic_46:
  "toDouble (69) = 69"
  "toDouble (81) = 81"
  by (simp_all add: toDouble_small [where n = 46] roundEven_def Let_def)

lemma double_basic_49:
  "toDouble (12) = 12"
  by (simp_all add: toDouble_small [where n = 49] roundEven_def Let_def)

lemma double_basic_51:
  "toDouble (2) = 2"
  by (simp_all add: toDouble_small [where n = 51] roundEven_def Let_def)

lemma double_basic_52:
  "toDouble (1) = 1"
  by (simp_all add: toDouble_small [where n = 52] roundEven_def Let_def)

lemma double_basic_53:
  "toDouble (7 / 10) = 3152519739159347 / 4503599627370496"
  "toDouble (1 / 2) = 1 / 2"
  by (simp_all add: toDouble_small [where n = 53] roundEven_def Let_def)

lemma double_basic_54:
  "toDouble (1 / 4) = 1 / 4"
  by (simp_all add: toDouble_small [where n = 54] roundEven_def Let_def)

lemma double_basic_55:
  "toDouble (1 / 5) = 3602879701896397 / 18014398509481984"
  "toDouble (1 / 8) = 1 / 8"
  by (simp_all add: toDouble_small [where n = 55] roundEven_def Let_def)

lemma double_basic_56:
  "toDouble (1 / 10) = 3602879701896397 / 36028797018963968"
  "toDouble (1 / 16) = 1 / 16"
  by (simp_all add: toDouble_small [where n = 56] roundEven_def Let_def)

lemmas double_basic = double_basic_46 double_basic_49 double_basic_51 double_basic_52 double_basic_53 double_basic_54 double_basic_55 double_basic_56

lemma double_c7_45:
  "toDouble (6417629469002956800 / 45035996273704963) = 285 / 2"
  "toDouble (221297567896653696 / 1552965388748447) = 285 / 2"
  by (simp_all add: toDouble_small [where n = 45] roundEven_def Let_def)

lemma double_c7_49:
  "toDouble (22517998136852480 / 1552965388748447) = 8162774324609023 / 562949953421312"
  by (simp_all add: toDouble_small [where n = 49] roundEven_def Let_def)

lemma double_c7_52:
  "toDouble (30 / 29) = 4658896166245341 / 4503599627370496"
  by (simp_all add: toDouble_small [where n = 52] roundEven_def Let_def)

lemma double_c7_55:
  "toDouble (4658896166245341 / 36028797018963968) = 4658896166245341 / 36028797018963968"
  by (simp_all add: toDouble_small [where n = 55] roundEven_def Let_def)

lemmas double_c7 = double_c7_45 double_c7_49 double_c7_52 double_c7_55

lemma double_period_45:
  "toDouble (221297567896653696 / 1552965388748447) = 285 / 2"
  by (simp_all add: toDouble_small [where n = 45] roundEven_def Let_def)

lemma double_period_48:
  "toDouble (4658896166245341 / 281474976710656) = 4658896166245341 / 281474976710656"
  "toDouble (5186661747577821 / 281474976710656) = 5186661747577821 / 281474976710656"
  by (simp_all add: toDouble_small [where n = 48] roundEven_def Let_def)

lemma double_period_52:
  "toDouble (15 / 8) = 15 / 8"
  by (simp_all add: toDouble_small [where n = 52] roundEven_def Let_def)

lemmas double_period = double_period_45 double_period_48 double_period_52

lemma double_walk_48:
  "toDouble (16) = 16"
  by (simp_all add: toDouble_small [where n = 48] roundEven_def Let_def)

lemma double_walk_49:
  "toDouble (8) = 8"
  "toDouble (9) = 9"
  "toDouble (10) = 10"
  "toDouble (11) = 11"
  "toDouble (12) = 12"
  "toDouble (13) = 13"
  "toDouble (14) = 14"
  "toDouble (15) = 15"
  by (simp_all add: toDouble_small [where n = 49] roundEven_def Let_def)

lemma double_walk_50:
  "toDouble (4) = 4"
  "toDouble (5) = 5"
  "toDouble (6) = 6"
  "toDouble (7) = 7"
  by (simp_all add: toDouble_small [where n = 50] roundEven_def Let_def)

lemma double_walk_51:
  "toDouble (2) = 2"
  "toDouble (3) = 3"
  "toDouble (9 / 4) = 9 / 4"
  "toDouble (5 / 2) = 5 / 2"
  "toDouble (11 / 4) = 11 / 4"
  "toDouble (13 / 4) = 13 / 4"
  "toDouble (7 / 2) = 7 / 2"
  "toDouble (15 / 4) = 15 / 4"
  by (simp_all add: toDouble_small [where n = 51] roundEven_def Let_def)

lemma double_walk_52:
  "toDouble (1) = 1"
  "toDouble (5 / 4) = 5 / 4"
  "toDouble (3 / 2) = 3 / 2"
  "toDouble (7 / 4) = 7 / 4"
  by (simp_all add: toDouble_small [where n = 52] roundEven_def Let_def)

lemma double_walk_53:
  "toDouble (1 / 2) = 1 / 2"
  "toDouble (3 / 4) = 3 / 4"
  by (simp_all add: toDouble_small [where n = 53] roundEven_def Let_def)

lemma double_walk_54:
  "toDouble (1 / 4) = 1 / 4"
  by (simp_all add: toDouble_small [where n = 54] roundEven_def Let_def)

lemmas double_walk = double_walk_48 double_walk_49 double_walk_50 double_walk_51 double_walk_52 double_walk_53 double_walk_54

lemma double_fast_46:
  "toDouble (64) = 64"
  by (simp_all add: toDouble_small [where n = 46] roundEven_def Let_def)

lemma double_fast_47:
  "toDouble (338670691978261312 / 5404319552844595) = 4409774635133611 / 70368744177664"
  by (simp_all add: toDouble_small [where n = 47] roundEven_def Let_def)

lemma double_fast_51:
  "toDouble (47 / 20) = 5291729562160333 / 2251799813685248"
  "toDouble (12 / 5) = 5404319552844595 / 2251799813685248"
  by (simp_all add: toDouble_small [where n = 51] roundEven_def Let_def)

lemma double_fast_54:
  "toDouble (3 / 10) = 5404319552844595 / 18014398509481984"
  by (simp_all add: toDouble_small [where n = 54] roundEven_def Let_def)

lemma double_fast_57:
  "toDouble (5404319552844595 / 144115188075855872) = 5404319552844595 / 144115188075855872"
  by (simp_all add: toDouble_small [where n = 57] roundEven_def Let_def)

lemmas double_fast = double_fast_46 double_fast_47 double_fast_51 double_fast_54 double_fast_57

lemma double_c8_50:
  "toDouble (4) = 4"
  by (simp_all add: toDouble_small [where n = 50] roundEven_def Let_def)

lemma double_c8_51:
  "toDouble (2) = 2"
  by (simp_all add: toDouble_small [where n = 51] roundEven_def Let_def)

lemma double_c8_52:
  "toDouble (1) = 1"
  by (simp_all add: toDouble_small [where n = 52] roundEven_def Let_def)

lemma double_c8_53:
  "toDouble (1 / 2) = 1 / 2"
  by (simp_all add: toDouble_small [where n = 53] roundEven_def Let_def)

lemma double_c8_54:
  "toDouble (1 / 4) = 1 / 4"
  by (simp_all add: toDouble_small [where n = 54] roundEven_def Let_def)

lemma double_c8_55:
  "toDouble (1 / 8) = 1 / 8"
  by (simp_all add: toDouble_small [where n = 55] roundEven_def Let_def)

lemma double_c8_56:
  "toDouble (1 / 16) = 1 / 16"
  by (simp_all add: toDouble_small [where n = 56] roundEven_def Let_def)

lemmas double_c8 = double_c8_50 double_c8_51 double_c8_52 double_c8_53 double_c8_54 double_c8_55 double_c8_56

lemma double_two_47:
  "toDouble (32) = 32"
  by (simp_all add: toDouble_small [where n = 47] roundEven_def Let_def)

lemma double_two_48:
  "toDouble (16) = 16"
  "toDouble (20) = 20"
  "toDouble (4447304632028365 / 140737488355328) = 4447304632028365 / 140737488355328"
  by (simp_all add: toDouble_small [where n = 48] roundEven_def Let_def)

lemma double_two_49:
  "toDouble (8782019273372467 / 562949953421312) = 8782019273372467 / 562949953421312"
  "toDouble (8) = 8"
  by (simp_all add: toDouble_small [where n = 49] roundEven_def Let_def)

lemma double_two_50:
  "toDouble (4) = 4"
  "toDouble (5) = 5"
  "toDouble (79 / 10) = 4447304632028365 / 562949953421312"
  "toDouble (21 / 4) = 21 / 4"
  by (simp_all add: toDouble_small [where n = 50] roundEven_def Let_def)

lemma double_two_51:
  "toDouble (39 / 10) = 8782019273372467 / 2251799813685248"
  by (simp_all add: toDouble_small [where n = 51] roundEven_def Let_def)

lemma double_two_52:
  "toDouble (1) = 1"
  "toDouble (5 / 4) = 5 / 4"
  by (simp_all add: toDouble_small [where n = 52] roundEven_def Let_def)

lemmas double_two = double_two_47 double_two_48 double_two_49 double_two_50 double_two_51 double_two_52






























section \<open>Arithmetic of the grid clock\<close>

lemma jsRem_nonneg: "0 \<le> a \<Longrightarrow> 0 < b \<Longrightarrow> jsRem a b = a mod b"
  by (cases "a = 0") (simp_all add: jsRem_def)

lemma jsRem_idem: "b \<noteq> 0 \<Longrightarrow> jsRem (jsRem a b) b = jsRem a b"
proof -
  assume b: "b \<noteq> 0"
  define r where "r = \<bar>a\<bar> mod \<bar>b\<bar>"
  have r: "0 \<le> r" "r < \<bar>b\<bar>" using b by (simp_all add: r_def)
  consider "a = 0" | "a > 0" | "a < 0" by linarith
  then show ?thesis
  proof cases
    case 1
    then show ?thesis by (simp add: jsRem_def)
  next
    case 2
    then have "jsRem a b = r" by (simp add: jsRem_def r_def)
    moreover have "jsRem r b = r" using r by (cases "r = 0") (simp_all add: jsRem_def)
    ultimately show ?thesis by simp
  next
    case 3
    then have e: "jsRem a b = - r" by (simp add: jsRem_def r_def)
    have "jsRem (- r) b = - r" using r by (cases "r = 0") (simp_all add: jsRem_def)
    with e show ?thesis by simp
  qed
qed

lemma jsRound_nonneg: "0 \<le> x \<Longrightarrow> 0 \<le> jsRound x"
  by (simp add: jsRound_def)

lemma jsRound_add_int: "jsRound (x + real_of_int k) = jsRound x + k"
proof -
  have "x + real_of_int k + 1 / 2 = (x + 1 / 2) + real_of_int k" by simp
  then show ?thesis unfolding jsRound_def by (metis floor_add_int)
qed

lemma secondsPerSubdivision_nonneg:
  "0 < bpm cl \<Longrightarrow> 0 < gridDivision cl \<Longrightarrow> 0 \<le> secondsPerSubdivision cl"
  by (simp add: secondsPerSubdivision_def toDouble_nonneg)

lemma totalPositions_pos:
  "0 < numberOfBars cl \<Longrightarrow> 0 < gridDivision cl \<Longrightarrow> 0 < totalPositions cl"
  by (simp add: totalPositions_def BEATS_PER_BAR_def)

lemma calculatePosition_eq:
  "calculatePosition cl t = wrap cl (jsRound (toDouble (t / secondsPerSubdivision cl)))"
  unfolding calculatePosition_def wrap_def secondsPerSubdivision_def Let_def by (rule refl)

lemma wrap_eq: "wrap cl p = jsRem p (totalPositions cl)"
  by (simp add: wrap_def totalPositions_def)

lemma calculatePosition_mod:
  assumes "0 < bpm cl" and "0 < gridDivision cl" and "0 < numberOfBars cl" and "0 \<le> t"
  shows "calculatePosition cl t
           = jsRound (toDouble (t / secondsPerSubdivision cl)) mod totalPositions cl"
proof -
  have "0 \<le> t / secondsPerSubdivision cl"
    using secondsPerSubdivision_nonneg [of cl] assms by simp
  then have "0 \<le> jsRound (toDouble (t / secondsPerSubdivision cl))"
    by (intro jsRound_nonneg toDouble_nonneg)
  then show ?thesis
    using totalPositions_pos [of cl] assms by (simp add: calculatePosition_eq wrap_eq jsRem_nonneg)
qed

lemma normalizedPositionOf_mod:
  assumes "0 < bpm cl" and "0 < gridDivision cl" and "0 < numberOfBars cl"
    and "startOf s f \<le> currentTime f"
  shows "normalizedPositionOf cl s f
           = \<lfloor>toDouble (toDouble (currentTime f - startOf s f) / secondsPerSubdivision cl)\<rfloor>
               mod totalPositions cl"
proof -
  have r: "relativeTimeOf s f = toDouble (currentTime f - startOf s f)"
    by (simp add: relativeTimeOf_def startOf_def)
  have "0 \<le> toDouble (currentTime f - startOf s f)"
    using assms(4) by (intro toDouble_nonneg) simp
  then have "0 \<le> toDouble (currentTime f - startOf s f) / secondsPerSubdivision cl"
    using secondsPerSubdivision_nonneg [of cl] assms by simp
  then have "0 \<le> \<lfloor>toDouble (toDouble (currentTime f - startOf s f) / secondsPerSubdivision cl)\<rfloor>"
    by (simp add: toDouble_nonneg)
  then show ?thesis
    using totalPositions_pos [of cl] assms
    by (simp add: normalizedPositionOf_def currentPositionOf_def r jsRem_nonneg)
qed

text \<open>
  Claim C7, as amended. For a positive tempo, grid division and bar count and a
  non-negative time, \<open>calculatePosition\<close> is \<open>round(q) mod totalCells\<close>, where \<open>q\<close> is the
  double quotient of the time by \<open>secondsPerCell\<close>, \<open>secondsPerCell\<close> is the double
  \<open>(60 / bpm) / gridDivision\<close> and \<open>totalCells = bars * 4 * gridDivision\<close>; the result lies
  from 0 up to \<open>totalCells - 1\<close>. Wrapping is idempotent, on any position and on the result
  of \<open>calculatePosition\<close>, and has period \<open>totalCells\<close> on the non-negative positions. The
  frame loop computes its own position with \<open>floor\<close> in place of \<open>round\<close>, on the time since
  the start of the session.
\<close>

theorem C7_grid_position:
  assumes "0 < bpm cl" and "0 < gridDivision cl" and "0 < numberOfBars cl" and "0 \<le> t"
  shows "secondsPerSubdivision cl
           = toDouble (toDouble (60 / real_of_int (bpm cl)) / real_of_int (gridDivision cl))
    \<and> totalPositions cl = numberOfBars cl * 4 * gridDivision cl
    \<and> calculatePosition cl t
         = jsRound (toDouble (t / secondsPerSubdivision cl)) mod totalPositions cl
    \<and> 0 \<le> calculatePosition cl t \<and> calculatePosition cl t < totalPositions cl
    \<and> wrap cl (wrap cl p) = wrap cl p
    \<and> wrap cl (calculatePosition cl t) = calculatePosition cl t
    \<and> (0 \<le> p \<longrightarrow> wrap cl (p + totalPositions cl) = wrap cl p)
    \<and> (startOf s f \<le> currentTime f \<longrightarrow>
         normalizedPositionOf cl s f
           = \<lfloor>toDouble (toDouble (currentTime f - startOf s f) / secondsPerSubdivision cl)\<rfloor>
               mod totalPositions cl)"
proof -
  have tp: "0 < totalPositions cl"
    using totalPositions_pos [of cl] assms by simp
  have 1: "secondsPerSubdivision cl
             = toDouble (toDouble (60 / real_of_int (bpm cl)) / real_of_int (gridDivision cl))"
    by (simp add: secondsPerSubdivision_def)
  have 2: "totalPositions cl = numberOfBars cl * 4 * gridDivision cl"
    by (simp add: totalPositions_def BEATS_PER_BAR_def)
  note 3 = calculatePosition_mod [OF assms]
  have 4: "0 \<le> calculatePosition cl t" "calculatePosition cl t < totalPositions cl"
    using tp by (simp_all add: 3)
  have 5: "wrap cl (wrap cl p) = wrap cl p"
    using tp by (simp add: wrap_eq jsRem_idem)
  have 6: "wrap cl (calculatePosition cl t) = calculatePosition cl t"
    using tp by (simp add: calculatePosition_eq wrap_eq jsRem_idem)
  have 7: "wrap cl (p + totalPositions cl) = wrap cl p" if "0 \<le> p"
    using that tp by (simp add: wrap_eq jsRem_nonneg)
  note 8 = normalizedPositionOf_mod [OF assms(1-3), of s f]
  from 1 2 3 4 5 6 7 8 show ?thesis by blast
qed

theorem C7_grid_position_witness:
  "calculatePosition cfg (1 / 8) = 2
   \<and> wrap cfg (wrap cfg 200) = wrap cfg 200
   \<and> wrap cfg (72 + totalPositions cfg) = wrap cfg 72"
proof -
  have h: "0 < bpm cfg" "0 < gridDivision cfg" "0 < numberOfBars cfg" "(0::real) \<le> 1 / 8"
    by (simp_all add: cfg_def initialClosure_def)
  have v: "jsRound (toDouble ((1 / 8) / secondsPerSubdivision cfg)) mod totalPositions cfg = 2"
    by (simp add: cfg_def initialClosure_def secondsPerSubdivision_def totalPositions_def
        BEATS_PER_BAR_def jsRound_def double_basic)
  from C7_grid_position [OF h, of 72]
  have a: "calculatePosition cfg (1 / 8)
             = jsRound (toDouble ((1 / 8) / secondsPerSubdivision cfg)) mod totalPositions cfg"
    and c: "wrap cfg (wrap cfg 72) = wrap cfg 72"
    and d: "0 \<le> (72::int) \<longrightarrow> wrap cfg (72 + totalPositions cfg) = wrap cfg 72"
    by blast+
  from C7_grid_position [OF h, of 200]
  have c': "wrap cfg (wrap cfg 200) = wrap cfg 200"
    by blast
  from a v have a': "calculatePosition cfg (1 / 8) = 2"
    by (simp only:)
  from d have d': "wrap cfg (72 + totalPositions cfg) = wrap cfg 72"
    by simp
  from a' c' d' show ?thesis by (intro conjI)
qed

text \<open>
  At 58 BPM on the default grid the time 1.875 s is 14.5 cells. The double quotient is
  just below 14.5 and \<open>calculatePosition\<close> gives 14, where the formula of the claim in
  exact arithmetic gives 15; at the time \<open>1.875 + totalPositions * secondsPerSubdivision\<close>,
  one period later, the double quotient is 142.5 and \<open>calculatePosition\<close> gives 15.
\<close>

theorem C7_counterexample:
  "calculatePosition cfg58 (15 / 8) = 14
   \<and> jsRound ((15 / 8) / ((60 / 58) / 8)) mod (4 * 4 * 8) = 15
   \<and> calculatePosition cfg58
        (toDouble (15 / 8 + toDouble (real_of_int (totalPositions cfg58)
                                        * secondsPerSubdivision cfg58))) = 15"
  by (simp add: calculatePosition_def secondsPerSubdivision_def totalPositions_def cfg58_def
      initialClosure_def BEATS_PER_BAR_def jsRound_def jsRem_def Let_def double_c7 double_period)

section \<open>Committed note store: the two write policies\<close>

lemma commitNote_add:
  "commitNote True prev n =
     (if \<exists>m\<in>set prev. startPosition m = startPosition n \<and> pitch m = pitch n then prev else prev @ [n])"
  by (simp add: commitNote_def list_ex_iff)

lemma commitNote_replace:
  "commitNote False prev n = filter (\<lambda>m. startPosition m \<noteq> startPosition n) prev @ [n]"
  by (simp add: commitNote_def)

lemma commitNote_set: "set (commitNote mode prev n) \<subseteq> set prev \<union> {n}"
  by (auto simp: commitNote_def)

lemma commitNote_replace_only:
  "filter (\<lambda>m. startPosition m = startPosition n) (commitNote False prev n) = [n]"
proof -
  have "filter (\<lambda>m. startPosition m = startPosition n)
          (filter (\<lambda>m. startPosition m \<noteq> startPosition n) prev) = []"
    by (simp add: filter_empty_conv)
  then show ?thesis by (simp add: commitNote_def)
qed

lemma commitNote_add_keys:
  "distinct (map (\<lambda>m. (startPosition m, pitch m)) prev) \<Longrightarrow>
   distinct (map (\<lambda>m. (startPosition m, pitch m)) (commitNote True prev n))"
  by (auto simp: commitNote_def list_ex_iff)

lemma handleNoteEnd_userNotes:
  "currentNoteState cl = Some a \<Longrightarrow>
   userNotes (handleNoteEnd cl s time) =
     commitNote (isAddMode s) (userNotes s)
       \<lparr>pitch = frequencyToMidi (activePitch a), startPosition = activeStartPosition a,
        endPosition = calculatePosition cl time, startTime = activeStartTime a, endTime = time\<rparr>"
  by (simp add: handleNoteEnd_def Let_def)

lemma detectNote_userNotes:
  "detectedPitch f \<noteq> 0 \<Longrightarrow> clarity f > toDouble (7 / 10) \<Longrightarrow>
   userNotes (detectNote cl s f position rel) =
     commitNote (isAddMode s) (userNotes s)
       \<lparr>pitch = max 0 (min 127 (frequencyToMidi (detectedPitch f))), startPosition = position,
        endPosition = position + 1, startTime = rel,
        endTime = toDouble (rel + secondsPerSubdivision cl)\<rparr>"
  by (simp add: detectNote_def Let_def)

text \<open>
  Claim C6. In Add mode the commit leaves the store unchanged when it already holds a
  note with the incoming note's start position and pitch, and appends the incoming note
  otherwise. In Replace mode it keeps, in order, the notes whose start position differs from
  the incoming note's, whatever their pitch, and appends the incoming note, which is then
  the only note at its start position. Add mode never creates a second note with the same
  start position and pitch. In both modes every note of the new store is an unchanged note
  of the old store or the incoming note.
  Both commit sites, \<open>handleNoteEnd\<close> and the note detection of \<open>loop\<close>, write the store
  through this update with the mode that is current at the commit.
\<close>

theorem C6_commit_policies:
  "commitNote True prev n =
     (if \<exists>m\<in>set prev. startPosition m = startPosition n \<and> pitch m = pitch n
      then prev else prev @ [n])
   \<and> commitNote False prev n = filter (\<lambda>m. startPosition m \<noteq> startPosition n) prev @ [n]
   \<and> filter (\<lambda>m. startPosition m = startPosition n) (commitNote False prev n) = [n]
   \<and> (distinct (map (\<lambda>m. (startPosition m, pitch m)) prev) \<longrightarrow>
        distinct (map (\<lambda>m. (startPosition m, pitch m)) (commitNote True prev n)))
   \<and> set (commitNote mode prev n) \<subseteq> set prev \<union> {n}
   \<and> (currentNoteState cl = Some a \<longrightarrow>
        userNotes (handleNoteEnd cl s time) =
          commitNote (isAddMode s) (userNotes s)
            \<lparr>pitch = frequencyToMidi (activePitch a), startPosition = activeStartPosition a,
             endPosition = calculatePosition cl time, startTime = activeStartTime a,
             endTime = time\<rparr>)
   \<and> (detectedPitch f \<noteq> 0 \<and> clarity f > toDouble (7 / 10) \<longrightarrow>
        userNotes (detectNote cl s f position rel) =
          commitNote (isAddMode s) (userNotes s)
            \<lparr>pitch = max 0 (min 127 (frequencyToMidi (detectedPitch f))),
             startPosition = position, endPosition = position + 1, startTime = rel,
             endTime = toDouble (rel + secondsPerSubdivision cl)\<rparr>)"
  using commitNote_add [of prev n] commitNote_replace [of prev n] commitNote_set [of mode prev n]
    commitNote_replace_only [of n prev] commitNote_add_keys [of prev n]
    handleNoteEnd_userNotes [of cl a s time] detectNote_userNotes [of f cl s position rel]
  by blast

theorem C6_commit_policies_witness:
  "commitNote True [n60, n64] n60 = [n60, n64]
   \<and> commitNote True [n60, n64] n62 = [n60, n64, n62]
   \<and> commitNote False [n60, n64] n62 = [n64, n62]"
proof -
  have a: "\<exists>m\<in>set [n60, n64]. startPosition m = startPosition n60 \<and> pitch m = pitch n60"
    by simp
  have b: "\<not> (\<exists>m\<in>set [n60, n64]. startPosition m = startPosition n62 \<and> pitch m = pitch n62)"
    by (simp add: n60_def n62_def n64_def)
  have c: "filter (\<lambda>m. startPosition m \<noteq> startPosition n62) [n60, n64] = [n64]"
    by (simp add: n60_def n62_def n64_def)
  from C6_commit_policies [of "[n60, n64]" n60] a
  have 1: "commitNote True [n60, n64] n60 = [n60, n64]"
    by presburger
  from C6_commit_policies [of "[n60, n64]" n62] b c
  have 2: "commitNote True [n60, n64] n62 = [n60, n64] @ [n62]"
    and 3: "commitNote False [n60, n64] n62 = [n64] @ [n62]"
    by presburger+
  from 1 2 3 show ?thesis by simp
qed

section \<open>Note combiner\<close>

lemma combineNotes_pushLast: "combineNotes ns = pushLast (foldl combineStep ([], None) ns)"
  by (simp add: combineNotes_def pushLast_def)

lemma combineStep_inv: "combineInv st \<Longrightarrow> combineInv (combineStep st n)"
proof (cases st)
  case (Pair acc cur)
  assume inv: "combineInv st"
  show ?thesis
  proof (cases cur)
    case None
    with Pair inv show ?thesis by (simp add: combineInv_def pushLast_def)
  next
    case (Some c)
    with Pair inv show ?thesis
      by (auto simp: combineInv_def pushLast_def distinct_adj_append_iff)
  qed
qed

lemma foldl_combineStep_inv: "combineInv st \<Longrightarrow> combineInv (foldl combineStep st ns)"
  by (induction ns arbitrary: st) (simp_all add: combineStep_inv)

lemma combineStep_length: "length (pushLast (combineStep st n)) \<le> Suc (length (pushLast st))"
  by (cases st; cases "snd st") (auto simp: pushLast_def)

lemma foldl_combineStep_length:
  "length (pushLast (foldl combineStep st ns)) \<le> length (pushLast st) + length ns"
proof (induction ns arbitrary: st)
  case Nil
  show ?case by simp
next
  case (Cons n ns)
  have "length (pushLast (foldl combineStep (combineStep st n) ns))
          \<le> length (pushLast (combineStep st n)) + length ns"
    by (rule Cons.IH)
  also have "\<dots> \<le> Suc (length (pushLast st)) + length ns"
    using combineStep_length [of st n] by simp
  finally show ?case by simp
qed

lemma foldl_combineStep_prefix:
  "pushLast (foldl combineStep (acc, Some c) ns) = acc @ pushLast (foldl combineStep ([], Some c) ns)"
proof (induction ns arbitrary: acc c)
  case Nil
  show ?case by (simp add: pushLast_def)
next
  case (Cons n ns)
  show ?case
  proof (cases "pitch n = pitch c")
    case True
    then show ?thesis using Cons.IH [of acc] by simp
  next
    case False
    then show ?thesis using Cons.IH [of "acc @ [c]" n] Cons.IH [of "[c]" n] by simp
  qed
qed

lemma combineNotes_Nil: "combineNotes [] = []"
  by (simp add: combineNotes_def)

lemma combineNotes_single: "combineNotes [a] = [a]"
  by (simp add: combineNotes_def)

lemma combineNotes_merge:
  "pitch b = pitch a \<Longrightarrow>
   combineNotes (a # b # rest) = combineNotes (a\<lparr>endTime := endTime b, endPosition := endPosition b\<rparr> # rest)"
  by (simp add: combineNotes_pushLast)

lemma combineNotes_flush:
  "pitch b \<noteq> pitch a \<Longrightarrow> combineNotes (a # b # rest) = a # combineNotes (b # rest)"
  using foldl_combineStep_prefix [of "[a]" b rest] by (simp add: combineNotes_pushLast)

text \<open>
  Claim C9. The note combiner returns a list no longer than its input in which no two
  neighbours have the same pitch. It works through the list merging a note into the
  accumulator when their pitches are equal, by giving the accumulator the note's end time
  and end position, and emitting the accumulator otherwise. On three notes of pitches 60,
  60 and 64 it returns two notes.
\<close>

theorem C9_combine_notes:
  "length (combineNotes ns) \<le> length ns
   \<and> distinct_adj (map pitch (combineNotes ns))
   \<and> combineNotes [] = []
   \<and> combineNotes [a] = [a]
   \<and> combineNotes (a # b # rest) =
       (if pitch b = pitch a
        then combineNotes (a\<lparr>endTime := endTime b, endPosition := endPosition b\<rparr> # rest)
        else a # combineNotes (b # rest))
   \<and> length (combineNotes
        [\<lparr>pitch = 60, startPosition = p1, endPosition = q1, startTime = t1, endTime = u1\<rparr>,
         \<lparr>pitch = 60, startPosition = p2, endPosition = q2, startTime = t2, endTime = u2\<rparr>,
         \<lparr>pitch = 64, startPosition = p3, endPosition = q3, startTime = t3, endTime = u3\<rparr>]) = 2"
proof -
  have len: "length (combineNotes ns) \<le> length ns"
    using foldl_combineStep_length [of "([], None)" ns]
    by (simp add: combineNotes_pushLast pushLast_def)
  have "combineInv ([], None)"
    by (simp add: combineInv_def pushLast_def)
  then have "combineInv (foldl combineStep ([], None) ns)"
    by (rule foldl_combineStep_inv)
  then have adj: "distinct_adj (map pitch (combineNotes ns))"
    by (simp add: combineInv_def combineNotes_pushLast)
  have ex: "length (combineNotes
        [\<lparr>pitch = 60, startPosition = p1, endPosition = q1, startTime = t1, endTime = u1\<rparr>,
         \<lparr>pitch = 60, startPosition = p2, endPosition = q2, startTime = t2, endTime = u2\<rparr>,
         \<lparr>pitch = 64, startPosition = p3, endPosition = q3, startTime = t3, endTime = u3\<rparr>]) = 2"
    by (simp add: combineNotes_def)
  show ?thesis
    using len adj ex combineNotes_merge [of b a rest] combineNotes_flush [of b a rest]
    by (simp add: combineNotes_Nil combineNotes_single)
qed

theorem C9_combine_notes_witness:
  "length (combineNotes [n60, n62, n62, n64]) \<le> 4
   \<and> distinct_adj (map pitch (combineNotes [n60, n62, n62, n64]))
   \<and> combineNotes [n62, n62, n64] = combineNotes [n62, n64]"
proof -
  have m: "pitch n62 = pitch n62" and e: "n62\<lparr>endTime := endTime n62, endPosition := endPosition n62\<rparr> = n62"
    by simp_all
  from C9_combine_notes [of "[n60, n62, n62, n64]" n62 n62 "[n64]"] m e
  have "length (combineNotes [n60, n62, n62, n64]) \<le> length [n60, n62, n62, n64]"
    and "distinct_adj (map pitch (combineNotes [n60, n62, n62, n64]))"
    and "combineNotes (n62 # n62 # [n64]) = combineNotes (n62 # [n64])"
    by presburger+
  then show ?thesis by simp
qed

section \<open>The model manager\<close>

lemma generateResponse_calls:
  "snd (generateResponse True model input) =
     (if filter isValid input = [] then []
      else [map (\<lambda>n. n\<lparr>mVelocity := 100\<rparr>) (filter isValid input)])"
proof -
  have "map (\<lambda>n. \<lparr>mPitch = mPitch n, mStartTime = mStartTime n, mEndTime = mEndTime n,
                    mVelocity = 100\<rparr>) xs = map (\<lambda>n. n\<lparr>mVelocity := 100\<rparr>) xs" for xs :: "magentaNote list"
    by simp
  then show ?thesis
    by (simp add: generateResponse_def Let_def split: sum.splits)
qed

lemma generateResponse_none_valid:
  "\<forall>n\<in>set input. mPitch n < 48 \<or> 83 < mPitch n \<Longrightarrow>
   generateResponse True model input = (Inr [], [])"
proof -
  assume "\<forall>n\<in>set input. mPitch n < 48 \<or> 83 < mPitch n"
  then have "filter isValid input = []"
    by (auto simp: filter_empty_conv isValid_def validNoteRangeMin_def validNoteRangeMax_def)
  then show ?thesis by (simp add: generateResponse_def)
qed

text \<open>
  Claim C10. When no input note has a pitch in the valid range from 48 to 83, an
  initialised \<open>generateResponse\<close> resolves to the empty list and makes no call to the
  external model. Whenever the model is called, it is given exactly the input notes whose
  pitch lies in the range, in order, with their pitches and times as they were: a note
  outside the range is dropped, not clamped.
\<close>

theorem C10_no_valid_notes:
  "((\<forall>n\<in>set input. mPitch n < 48 \<or> 83 < mPitch n) \<longrightarrow>
      generateResponse True model input = (Inr [], []))
   \<and> (\<forall>call\<in>set (snd (generateResponse True model input)).
        map mPitch call = filter (\<lambda>p. 48 \<le> p \<and> p \<le> 83) (map mPitch input)
        \<and> map mStartTime call
            = map mStartTime (filter (\<lambda>n. 48 \<le> mPitch n \<and> mPitch n \<le> 83) input)
        \<and> map mEndTime call
            = map mEndTime (filter (\<lambda>n. 48 \<le> mPitch n \<and> mPitch n \<le> 83) input))"
proof -
  have v: "isValid = (\<lambda>n. 48 \<le> mPitch n \<and> mPitch n \<le> 83)"
    by (rule ext) (simp add: isValid_def validNoteRangeMin_def validNoteRangeMax_def)
  have f: "filter (\<lambda>p. 48 \<le> p \<and> p \<le> 83) (map mPitch input) = map mPitch (filter isValid input)"
    by (simp add: v filter_map comp_def)
  show ?thesis
    using generateResponse_none_valid [of input model]
    by (auto simp: generateResponse_calls f comp_def v [symmetric])
qed

theorem C10_no_valid_notes_witness:
  "generateResponse True (\<lambda>ns. Inl ModelError) [low, high] = (Inr [], [])"
proof -
  have "\<forall>n\<in>set [low, high]. mPitch n < 48 \<or> 83 < mPitch n"
    by (simp add: low_def high_def)
  with C10_no_valid_notes [of "[low, high]" "\<lambda>ns. Inl ModelError"] show ?thesis by blast
qed

section \<open>Loop boundary detection\<close>

lemma loopEnds_update [simp]:
  "loopEnds (s\<lparr>loopStartTime := x\<rparr>) = loopEnds s"
  "loopEnds (s\<lparr>lastLoopEndPosition := y\<rparr>) = loopEnds s"
  "loopEnds (s\<lparr>silenceStartTime := z\<rparr>) = loopEnds s"
  by (simp_all add: loopEnds_def)

lemma handleNoteEnd_fields [simp]:
  "lastLoopEndPosition (handleNoteEnd cl s t) = lastLoopEndPosition s"
  "loopStartTime (handleNoteEnd cl s t) = loopStartTime s"
  "userNotesRef (handleNoteEnd cl s t) = userNotesRef s"
  "previousNotesRef (handleNoteEnd cl s t) = previousNotesRef s"
  "isAddMode (handleNoteEnd cl s t) = isAddMode s"
  "hasManager (handleNoteEnd cl s t) = hasManager s"
  "silenceStartTime (handleNoteEnd cl s t) = silenceStartTime s"
  "waitingLatest (handleNoteEnd cl s t) = waitingLatest s"
  "inFlight (handleNoteEnd cl s t) = inFlight s"
  "aiNotes (handleNoteEnd cl s t) = aiNotes s"
  "loopEnds (handleNoteEnd cl s t) = loopEnds s"
  by (simp_all add: handleNoteEnd_def loopEnds_def Let_def split: option.splits)

lemma loopEnd_fields [simp]:
  "lastLoopEndPosition (loopEnd cl s) = lastLoopEndPosition s"
  "loopStartTime (loopEnd cl s) = loopStartTime s"
  "userNotes (loopEnd cl s) = userNotes s"
  "userNotesRef (loopEnd cl s) = userNotesRef s"
  "isAddMode (loopEnd cl s) = isAddMode s"
  "hasManager (loopEnd cl s) = hasManager s"
  "silenceStartTime (loopEnd cl s) = silenceStartTime s"
  "noteStateLatest (loopEnd cl s) = noteStateLatest s"
  "aiNotes (loopEnd cl s) = aiNotes s"
  "loopEnds (loopEnd cl s) = Suc (loopEnds s)"
  by (simp_all add: loopEnd_def loopEnds_def Let_def)

lemma detectNote_fields [simp]:
  "lastLoopEndPosition (detectNote cl s f p r) = lastLoopEndPosition s"
  "loopStartTime (detectNote cl s f p r) = loopStartTime s"
  "previousNotesRef (detectNote cl s f p r) = previousNotesRef s"
  "isAddMode (detectNote cl s f p r) = isAddMode s"
  "hasManager (detectNote cl s f p r) = hasManager s"
  "silenceStartTime (detectNote cl s f p r) = silenceStartTime s"
  "waitingLatest (detectNote cl s f p r) = waitingLatest s"
  "noteStateLatest (detectNote cl s f p r) = noteStateLatest s"
  "inFlight (detectNote cl s f p r) = inFlight s"
  "aiNotes (detectNote cl s f p r) = aiNotes s"
  "console (detectNote cl s f p r) = console s"
  "loopEnds (detectNote cl s f p r) = loopEnds s"
  by (simp_all add: detectNote_def loopEnds_def Let_def)

lemma silenceShort_fields [simp]:
  "lastLoopEndPosition (silenceShort cl s f) = lastLoopEndPosition s"
  "loopStartTime (silenceShort cl s f) = loopStartTime s"
  "userNotesRef (silenceShort cl s f) = userNotesRef s"
  "previousNotesRef (silenceShort cl s f) = previousNotesRef s"
  "isAddMode (silenceShort cl s f) = isAddMode s"
  "hasManager (silenceShort cl s f) = hasManager s"
  "waitingLatest (silenceShort cl s f) = waitingLatest s"
  "inFlight (silenceShort cl s f) = inFlight s"
  "aiNotes (silenceShort cl s f) = aiNotes s"
  "loopEnds (silenceShort cl s f) = loopEnds s"
  by (simp_all add: silenceShort_def)

lemma silenceLong_fields [simp]:
  "lastLoopEndPosition (silenceLong cl s f) = lastLoopEndPosition s"
  "loopStartTime (silenceLong cl s f) = loopStartTime s"
  "userNotesRef (silenceLong cl s f) = userNotesRef s"
  "previousNotesRef (silenceLong cl s f) = previousNotesRef s"
  "isAddMode (silenceLong cl s f) = isAddMode s"
  "hasManager (silenceLong cl s f) = hasManager s"
  "waitingLatest (silenceLong cl s f) = waitingLatest s"
  "inFlight (silenceLong cl s f) = inFlight s"
  "aiNotes (silenceLong cl s f) = aiNotes s"
  "loopEnds (silenceLong cl s f) = loopEnds s"
  by (simp_all add: silenceLong_def Let_def)

lemma loop_lastLoopEndPosition: "lastLoopEndPosition (loop cl s f) = normalizedPositionOf cl s f"
  by (simp add: loop_def Let_def)

lemma loop_loopStartTime:
  "loopStartTime (loop cl s f) = Some (case loopStartTime s of None \<Rightarrow> currentTime f | Some t \<Rightarrow> t)"
  by (auto simp: loop_def Let_def split: option.splits)

lemma loopEndDetected_start [simp]:
  "loopEndDetected cl (s\<lparr>loopStartTime := x\<rparr>) p = loopEndDetected cl s p"
  by (simp add: loopEndDetected_def)

lemma loop_loopEnds:
  "loopEnds (loop cl s f) =
     loopEnds s + (if loopEndDetected cl s (normalizedPositionOf cl s f) then 1 else 0)"
  by (simp add: loop_def Let_def)


lemma currentPositionOf_started:
  "loopStartTime s = Some t0 \<Longrightarrow> currentPositionOf cl s f = cellAt cl t0 f"
  by (simp add: currentPositionOf_def relativeTimeOf_def cellAt_def)

lemma currentPositionOf_first:
  "loopStartTime s = None \<Longrightarrow> currentPositionOf cl s f = 0"
  by (simp add: currentPositionOf_def relativeTimeOf_def)

lemma succ_div_mod:
  fixes c t :: int
  assumes "0 < t"
  shows "((c + 1) mod t = 0) = (c mod t = t - 1)
    \<and> (c + 1) div t = c div t + (if c mod t = t - 1 then 1 else 0)"
proof -
  have r: "0 \<le> c mod t" "c mod t < t"
    using assms by simp_all
  have c: "c = t * (c div t) + c mod t"
    by simp
  show ?thesis
  proof (cases "c mod t = t - 1")
    case True
    with c have e: "c + 1 = t * (c div t + 1) + 0"
      by (simp add: algebra_simps)
    have "(c + 1) mod t = 0" and "(c + 1) div t = c div t + 1"
      using int_mod_pos_eq [OF e] int_div_pos_eq [OF e] assms by simp_all
    with True show ?thesis by simp
  next
    case False
    with r have b: "0 \<le> c mod t + 1" "c mod t + 1 < t"
      by simp_all
    from c have e: "c + 1 = t * (c div t) + (c mod t + 1)"
      by simp
    have "(c + 1) mod t = c mod t + 1" and "(c + 1) div t = c div t"
      using int_mod_pos_eq [OF e b] int_div_pos_eq [OF e b] by simp_all
    with False r show ?thesis by simp
  qed
qed

lemma frames_Cons: "frames cl s (f # fs) = frames cl (loop cl s f) fs"
  by (simp add: frames_def)

lemma frames_Nil: "frames cl s [] = s"
  by (simp add: frames_def)

lemma noSkip_count:
  assumes tot: "1 < totalPositions cl"
  shows "loopStartTime s = Some t0 \<Longrightarrow> 0 \<le> c \<Longrightarrow> lastLoopEndPosition s = c mod totalPositions cl
    \<Longrightarrow> noSkip cl t0 c fs
    \<Longrightarrow> int (loopEnds (frames cl s fs)) + c div totalPositions cl
          = int (loopEnds s) + finalCell cl t0 c fs div totalPositions cl"
proof (induction fs arbitrary: s c)
  case Nil
  show ?case by (simp add: frames_Nil)
next
  case (Cons f fs)
  let ?T = "totalPositions cl"
  let ?c' = "cellAt cl t0 f"
  let ?s' = "loop cl s f"
  from Cons.prems have c': "?c' = c \<or> ?c' = c + 1" and rest: "noSkip cl t0 ?c' fs"
    by simp_all
  from c' Cons.prems(2) have nn: "0 \<le> ?c'" by auto
  have np: "normalizedPositionOf cl s f = ?c' mod ?T"
    using nn tot Cons.prems(1)
    by (simp add: normalizedPositionOf_def currentPositionOf_started jsRem_nonneg)
  have st: "loopStartTime ?s' = Some t0"
    using Cons.prems(1) by (simp add: loop_loopStartTime)
  have la: "lastLoopEndPosition ?s' = ?c' mod ?T"
    by (simp add: loop_lastLoopEndPosition np)
  have cm: "0 \<le> c mod ?T" using tot by simp
  have fire: "loopEndDetected cl s (?c' mod ?T) = (?c' div ?T = c div ?T + 1)"
       and nofire: "\<not> loopEndDetected cl s (?c' mod ?T) \<Longrightarrow> ?c' div ?T = c div ?T"
    using c' tot cm Cons.prems(3) succ_div_mod [of ?T c]
    by (auto simp: loopEndDetected_def)
  have cnt: "int (loopEnds ?s') + c div ?T = int (loopEnds s) + ?c' div ?T"
    using fire nofire by (auto simp: loop_loopEnds np)
  have "int (loopEnds (frames cl ?s' fs)) + ?c' div ?T
          = int (loopEnds ?s') + finalCell cl t0 ?c' fs div ?T"
    using st nn la rest by (rule Cons.IH)
  with cnt show ?case by (simp add: frames_Cons)
qed


lemma forward_count:
  assumes tot: "1 < totalPositions cl"
  shows "loopStartTime s = Some t0 \<Longrightarrow> 0 \<le> c \<Longrightarrow> lastLoopEndPosition s = c mod totalPositions cl
    \<Longrightarrow> forward cl t0 c fs
    \<Longrightarrow> int (loopEnds (frames cl s fs)) + c div totalPositions cl
          \<le> int (loopEnds s) + finalCell cl t0 c fs div totalPositions cl"
proof (induction fs arbitrary: s c)
  case Nil
  show ?case by (simp add: frames_Nil)
next
  case (Cons f fs)
  let ?T = "totalPositions cl"
  let ?c' = "cellAt cl t0 f"
  let ?s' = "loop cl s f"
  from Cons.prems have c': "c \<le> ?c'" and rest: "forward cl t0 ?c' fs"
    by simp_all
  from c' Cons.prems(2) have nn: "0 \<le> ?c'" by simp
  have np: "normalizedPositionOf cl s f = ?c' mod ?T"
    using nn tot Cons.prems(1)
    by (simp add: normalizedPositionOf_def currentPositionOf_started jsRem_nonneg)
  have st: "loopStartTime ?s' = Some t0"
    using Cons.prems(1) by (simp add: loop_loopStartTime)
  have la: "lastLoopEndPosition ?s' = ?c' mod ?T"
    by (simp add: loop_lastLoopEndPosition np)
  have mono: "c div ?T \<le> ?c' div ?T"
    using c' tot by (simp add: zdiv_mono1)
  have fire: "c div ?T + 1 \<le> ?c' div ?T" if f: "loopEndDetected cl s (?c' mod ?T)"
  proof (rule ccontr)
    assume "\<not> c div ?T + 1 \<le> ?c' div ?T"
    with mono have e: "?c' div ?T = c div ?T" by simp
    have cm: "0 \<le> c mod ?T" using tot by simp
    from f Cons.prems(3) cm have m: "?c' mod ?T = 0" "c mod ?T = ?T - 1"
      by (auto simp: loopEndDetected_def)
    have "?c' = ?T * (?c' div ?T) + ?c' mod ?T" "c = ?T * (c div ?T) + c mod ?T"
      by simp_all
    with e m have "c = ?c' + (?T - 1)" by simp
    with c' tot show False by simp
  qed
  have cnt: "int (loopEnds ?s') + c div ?T \<le> int (loopEnds s) + ?c' div ?T"
    using fire mono by (auto simp: loop_loopEnds np)
  have "int (loopEnds (frames cl ?s' fs)) + ?c' div ?T
          \<le> int (loopEnds ?s') + finalCell cl t0 ?c' fs div ?T"
    using st nn la rest by (rule Cons.IH)
  with cnt show ?case by (simp add: frames_Cons)
qed

lemma first_frame:
  assumes "0 < totalPositions cl" and "loopStartTime s = None" and "lastLoopEndPosition s = - 1"
  shows "loopStartTime (loop cl s f) = Some (currentTime f)"
    and "lastLoopEndPosition (loop cl s f) = 0"
    and "loopEnds (loop cl s f) = Suc (loopEnds s)"
  using assms
  by (simp_all add: loop_loopStartTime loop_lastLoopEndPosition loop_loopEnds
      normalizedPositionOf_def currentPositionOf_first jsRem_def loopEndDetected_def)

lemma totalPositions_gt1:
  "0 < numberOfBars cl \<Longrightarrow> 0 < gridDivision cl \<Longrightarrow> 1 < totalPositions cl"
proof -
  assume "0 < numberOfBars cl" "0 < gridDivision cl"
  then have "1 \<le> numberOfBars cl * gridDivision cl"
    by (metis mult_pos_pos zle_diff1_eq diff_self add_0 zless_imp_add1_zle)
  then show ?thesis by (simp add: totalPositions_def BEATS_PER_BAR_def)
qed

lemma totalPositions_neq1: "totalPositions cl \<noteq> 1"
proof
  assume "totalPositions cl = 1"
  then have "4 * (numberOfBars cl * gridDivision cl) = 1"
    by (simp add: totalPositions_def BEATS_PER_BAR_def mult.assoc mult.left_commute)
  then show False by presburger
qed

lemma no_double_fire:
  "normalizedPositionOf cl s f = 0 \<Longrightarrow>
   \<not> loopEndDetected cl (loop cl s f) (normalizedPositionOf cl (loop cl s f) g)"
  using totalPositions_neq1 [of cl]
  by (auto simp: loopEndDetected_def loop_lastLoopEndPosition)

lemmas model_defs = frames_def loop_def Let_def initialState_def initialClosure_def
  secondsPerSubdivision_def double_basic
  silentAt_def normalizedPositionOf_def currentPositionOf_def relativeTimeOf_def
  totalPositions_def BEATS_PER_BAR_def jsRem_def loopEndDetected_def loopEnd_def
  VOLUME_THRESHOLD_def SILENCE_THRESHOLD_def silenceShort_def silenceLong_def falsy_def
  combineNotes_def handleNoteEnd_def detectNote_def commitNote_def

text \<open>
  Claim C2, as amended. A frame logs a loop end precisely when its normalised position is
  0 and the stored last position is \<open>totalPositions - 1\<close> or the initial \<open>-1\<close>; every
  frame stores its normalised position as the last position; two consecutive frames at
  position 0 never both log a loop end. Let the cell of a frame be the position the loop
  computes for it, in double arithmetic, before wrapping. From the start of a session,
  with frames whose cells never go backwards, the number of loop ends is at most one more
  than the number of completed traversals of the grid, and it is exactly that when the
  cell of no frame is more than one after the cell of the frame before it.
\<close>

theorem C2_loop_boundary:
  assumes "0 < bpm cl" and "0 < gridDivision cl" and "0 < numberOfBars cl"
  shows "loopEnds (loop cl s f) =
      loopEnds s + (if normalizedPositionOf cl s f = 0
                      \<and> (lastLoopEndPosition s = totalPositions cl - 1 \<or> lastLoopEndPosition s = - 1)
                    then 1 else 0)
    \<and> lastLoopEndPosition (loop cl s f) = normalizedPositionOf cl s f
    \<and> (normalizedPositionOf cl s f = 0 \<and> normalizedPositionOf cl (loop cl s f) g = 0
         \<longrightarrow> loopEnds (loop cl (loop cl s f) g) = loopEnds (loop cl s f))
    \<and> (loopStartTime s = None \<and> lastLoopEndPosition s = - 1 \<and> forward cl (currentTime f) 0 fs
         \<longrightarrow> int (loopEnds (frames cl s (f # fs)))
               \<le> int (loopEnds s) + 1 + finalCell cl (currentTime f) 0 fs div totalPositions cl)
    \<and> (loopStartTime s = None \<and> lastLoopEndPosition s = - 1 \<and> noSkip cl (currentTime f) 0 fs
         \<longrightarrow> int (loopEnds (frames cl s (f # fs)))
               = int (loopEnds s) + 1 + finalCell cl (currentTime f) 0 fs div totalPositions cl)"
proof -
  have tot: "1 < totalPositions cl"
    using assms by (simp add: totalPositions_gt1)
  then have tot0: "0 < totalPositions cl" by simp
  have a: "loopEnds (loop cl s f) =
      loopEnds s + (if normalizedPositionOf cl s f = 0
                      \<and> (lastLoopEndPosition s = totalPositions cl - 1 \<or> lastLoopEndPosition s = - 1)
                    then 1 else 0)"
    by (simp add: loop_loopEnds loopEndDetected_def)
  have b: "lastLoopEndPosition (loop cl s f) = normalizedPositionOf cl s f"
    by (rule loop_lastLoopEndPosition)
  have c: "loopEnds (loop cl (loop cl s f) g) = loopEnds (loop cl s f)"
    if "normalizedPositionOf cl s f = 0"
    using no_double_fire [OF that, of g] by (simp add: loop_loopEnds)
  have d: "int (loopEnds (frames cl s (f # fs)))
               \<le> int (loopEnds s) + 1 + finalCell cl (currentTime f) 0 fs div totalPositions cl"
    if "loopStartTime s = None" "lastLoopEndPosition s = - 1" "forward cl (currentTime f) 0 fs"
    using forward_count [OF tot, of "loop cl s f" "currentTime f" 0 fs] that
      first_frame [OF tot0 that(1) that(2), of f]
    by (simp add: frames_Cons)
  have e: "int (loopEnds (frames cl s (f # fs)))
               = int (loopEnds s) + 1 + finalCell cl (currentTime f) 0 fs div totalPositions cl"
    if "loopStartTime s = None" "lastLoopEndPosition s = - 1" "noSkip cl (currentTime f) 0 fs"
    using noSkip_count [OF tot, of "loop cl s f" "currentTime f" 0 fs] that
      first_frame [OF tot0 that(1) that(2), of f]
    by (simp add: frames_Cons)
  from a b c d e show ?thesis by blast
qed

theorem C2_loop_boundary_witness:
  "loopEnds (frames cl16 initialState (silentAt 0 # walk)) = 2"
proof -
  have h: "0 < bpm cl16" "0 < gridDivision cl16" "0 < numberOfBars cl16"
    by (simp_all add: cl16_def initialClosure_def)
  have i: "loopStartTime initialState = None \<and> lastLoopEndPosition initialState = - 1
           \<and> noSkip cl16 (currentTime (silentAt 0)) 0 walk"
    by (simp add: initialState_def walk_def cellAt_def cl16_def initialClosure_def silentAt_def
        secondsPerSubdivision_def double_basic double_walk)
  have v: "int (loopEnds initialState) + 1
             + finalCell cl16 (currentTime (silentAt 0)) 0 walk div totalPositions cl16 = 2"
    by (simp add: initialState_def walk_def cellAt_def cl16_def initialClosure_def silentAt_def
        loopEnds_def totalPositions_def BEATS_PER_BAR_def secondsPerSubdivision_def
        double_basic double_walk)
  from C2_loop_boundary [OF h, of initialState "silentAt 0" "silentAt 0" walk] i
  have "int (loopEnds (frames cl16 initialState (silentAt 0 # walk)))
          = int (loopEnds initialState) + 1
             + finalCell cl16 (currentTime (silentAt 0)) 0 walk div totalPositions cl16"
    by blast
  with v show ?thesis by simp
qed

text \<open>
  With 64 cells of 37.5 ms, frames at 0 s, 2.35 s and 2.4 s are in cells 0, 62 and 64:
  the third frame starts the second traversal at normalised position 0, but the stored
  last position is 62, not 63, so the only loop end logged is the one of the first frame.
\<close>

theorem C2_counterexample:
  "currentPositionOf clFast (frames clFast initialState [silentAt 0, silentAt (235 / 100)])
       (silentAt (24 / 10)) = totalPositions clFast
   \<and> normalizedPositionOf clFast (frames clFast initialState [silentAt 0, silentAt (235 / 100)])
       (silentAt (24 / 10)) = 0
   \<and> loopEnds (frames clFast initialState [silentAt 0, silentAt (235 / 100), silentAt (24 / 10)]) = 1"
  by (simp add: model_defs clFast_def loopEnds_def double_fast)

section \<open>Mapping a response onto the grid\<close>

lemma convertResponseNote_copies:
  "aiPitch (convertResponseNote cl n) = mPitch n"
  "aiStartTime (convertResponseNote cl n) = mStartTime n"
  "aiEndTime (convertResponseNote cl n) = mEndTime n"
  "aiVelocity (convertResponseNote cl n) = mVelocity n"
  by (simp_all add: convertResponseNote_def Let_def)

lemma convertResponseNote_positions:
  "aiStartPosition (convertResponseNote cl n)
     = \<lfloor>toDouble (mStartTime n
          / toDouble (toDouble (60 / real_of_int (bpm cl)) / real_of_int SUBDIVISIONS))\<rfloor>"
  "aiEndPosition (convertResponseNote cl n)
     = \<lceil>toDouble (mEndTime n
          / toDouble (toDouble (60 / real_of_int (bpm cl)) / real_of_int SUBDIVISIONS))\<rceil>"
  by (simp_all add: convertResponseNote_def Let_def)

lemma settled_aiNotes:
  "0 < inFlight s \<Longrightarrow> response \<noteq> [] \<Longrightarrow>
   aiNotes (settled cl s (Inr response)) = map (convertResponseNote cl) response"
  by (simp add: settled_def Let_def)

text \<open>
  Claim C8 on the code. A session on the 8th-note grid (grid division 2) at 120 BPM has
  cells of 0.25 s. A returned note from step 1 to step 2 lasts from 0.125 s to 0.25 s.
  The response handler divides by the constant \<open>SUBDIVISIONS = 8\<close>, not by the grid
  division, and stores the positions 2 and 4. On the session's grid the note starts in
  cell 0 and ends with cell 1 (\<open>calculatePosition\<close> gives 1 and 1). \<open>exportMIDI\<close> reads
  the stored positions in cells of the grid division and writes the note from 0.5 s to
  1 s. The handler is created by the loop and reads the tempo bound when \<open>listen\<close> was
  called: were the tempo set to 60 in the meantime, it would still store 2 and 4, where
  its own formula at 60 BPM gives 1 and 2.
\<close>

theorem C8_fixed_subdivisions:
  "mStartTime (fromStep oneStep) = 1 / 8
   \<and> mEndTime (fromStep oneStep) = 1 / 4
   \<and> aiNotes (settled cl16 awaiting (Inr [fromStep oneStep]))
        = [convertResponseNote cl16 (fromStep oneStep)]
   \<and> aiStartPosition (convertResponseNote cl16 (fromStep oneStep)) = 2
   \<and> aiEndPosition (convertResponseNote cl16 (fromStep oneStep)) = 4
   \<and> \<lfloor>toDouble (mStartTime (fromStep oneStep) / secondsPerSubdivision cl16)\<rfloor> = 0
   \<and> \<lceil>toDouble (mEndTime (fromStep oneStep) / secondsPerSubdivision cl16)\<rceil> = 1
   \<and> calculatePosition cl16 (mStartTime (fromStep oneStep)) = 1
   \<and> calculatePosition cl16 (mEndTime (fromStep oneStep)) = 1
   \<and> exportTime cl16 (aiStartPosition (convertResponseNote cl16 (fromStep oneStep))) = 1 / 2
   \<and> exportTime cl16 (aiEndPosition (convertResponseNote cl16 (fromStep oneStep))) = 1
   \<and> bpm clSlow = 60
   \<and> aiStartPosition (convertResponseNote clSlow (fromStep oneStep)) = 1
   \<and> aiEndPosition (convertResponseNote clSlow (fromStep oneStep)) = 2"
  by (simp add: fromStep_def oneStep_def secondsPerStep_def settled_def awaiting_def initialState_def
      convertResponseNote_def clSlow_def cl16_def initialClosure_def secondsPerSubdivision_def
      calculatePosition_def exportTime_def SUBDIVISIONS_def BEATS_PER_BAR_def jsRound_def jsRem_def
      Let_def double_basic double_c8)

section \<open>Dispatch at the loop boundary\<close>

lemmas run_defs = run_def model_defs soundAt_def frequencyToMidi_def mathLog2_def jsRound_def
  cl16_def toMagenta_def

lemma loopEnd_gate:
  "inFlight (loopEnd cl s) =
     inFlight s + (if userNotesRef s \<noteq> previousNotesRef s \<and> \<not> isWaitingForMagenta cl
                      \<and> hasManager s then 1 else 0)"
  "previousNotesRef (loopEnd cl s) =
     (if userNotesRef s \<noteq> previousNotesRef s \<and> \<not> isWaitingForMagenta cl
      then userNotesRef s else previousNotesRef s)"
  by (simp_all add: loopEnd_def Let_def)

text \<open>
  Claim C1 on the code. The dispatch is gated by \<open>isWaitingForMagenta\<close> as the running
  loop sees it, which is the value bound when \<open>listen\<close> was called and not the value that
  \<open>setIsWaitingForMagenta\<close> last set. In a session of two traversals with a new note in
  each and no response yet, the first loop end dispatches a request and takes the snapshot
  at once; at the second loop end the flag was last set to true and one request is
  pending, the buffer differs from the snapshot, and a second request is dispatched: two
  requests are in flight.
\<close>

theorem C1_two_requests_in_flight:
  "inFlight (run cl16 initialState (take 3 twoLoops)) = 0
   \<and> inFlight (run cl16 initialState (take 4 twoLoops)) = 1
   \<and> previousNotesRef (run cl16 initialState (take 4 twoLoops))
        = userNotesRef (run cl16 initialState (take 4 twoLoops))
   \<and> inFlight (run cl16 initialState (take 6 twoLoops)) = 1
   \<and> waitingLatest (run cl16 initialState (take 6 twoLoops))
   \<and> userNotesRef (run cl16 initialState (take 6 twoLoops))
        \<noteq> previousNotesRef (run cl16 initialState (take 6 twoLoops))
   \<and> inFlight (run cl16 initialState twoLoops) = 2"
  by (simp add: twoLoops_def run_defs double_two)

section \<open>Note segmentation in the frame loop\<close>

lemma closes_update [simp]:
  "closes (s\<lparr>loopStartTime := x\<rparr>) = closes s"
  "closes (s\<lparr>lastLoopEndPosition := y\<rparr>) = closes s"
  "closes (s\<lparr>silenceStartTime := z\<rparr>) = closes s"
  by (simp_all add: closes_def)


lemma closes_loopEnd [simp]: "closes (loopEnd cl s) = closes s"
  by (simp add: loopEnd_def closes_def Let_def)

lemma closes_detectNote [simp]: "closes (detectNote cl s f p r) = closes s"
  by (simp add: detectNote_def closes_def Let_def)








lemma isAddMode_loop [simp]: "isAddMode (loop cl s f) = isAddMode s"
  by (simp add: loop_def Let_def)












lemma frames_append: "frames cl s (xs @ ys) = frames cl (frames cl s xs) ys"
  by (simp add: frames_def)











lemma handleNoteStart_split:
  assumes "currentNoteState cl = Some a"
    and "frequencyToMidi p = frequencyToMidi (activePitch a)"
    and "toDouble (time - activeStartTime a)
           \<ge> toDouble (toDouble (real_of_int (maxNoteDuration cl) / real_of_int (gridDivision cl))
                          * toDouble (60 / real_of_int (bpm cl)))"
  shows "noteStateLatest (handleNoteStart cl s p time)
           = Some \<lparr>activePitch = p, activeStartTime = time,
                   activeStartPosition = calculatePosition cl time, lastUpdateTime = time\<rparr>"
    and "userNotes (handleNoteStart cl s p time)
           = commitNote (isAddMode s) (userNotes s)
               \<lparr>pitch = frequencyToMidi (activePitch a), startPosition = activeStartPosition a,
                endPosition = calculatePosition cl time, startTime = activeStartTime a,
                endTime = time\<rparr>"
  using assms by (simp_all add: handleNoteStart_def handleNoteEnd_def Let_def)

end
